theory Spec2Isabelle
  imports Complex_Main
begin

section \<open>JavaScript values\<close>

text \<open>
  The orchestrator (\<^verbatim>\<open>src/orchestrator.js\<close>) handles JSON that was parsed by
  \<^verbatim>\<open>express.json()\<close> (request bodies) and by axios (\<^verbatim>\<open>resp.data\<close>), and it
  tests these values with \<^verbatim>\<open>!x\<close>. A value is therefore one of the JSON shapes or
  \<^verbatim>\<open>undefined\<close> (the result of reading a property that is not there). Numbers are
  kept as rationals: the code only tests them for zero and compares them as keys.
  An object is the list of its own properties.
\<close>

datatype jsval =
    JUndefined
  | JNull
  | JBool bool
  | JNum rat
  | JStr string
  | JArr "jsval list"
  | JObj "(string \<times> jsval) list"

text \<open>\<^verbatim>\<open>!!v\<close>: every value is truthy except undefined, null, false, 0 and the empty string.\<close>

fun truthy :: "jsval \<Rightarrow> bool" where
  "truthy JUndefined = False"
| "truthy JNull = False"
| "truthy (JBool b) = b"
| "truthy (JNum n) = (n \<noteq> 0)"
| "truthy (JStr s) = (s \<noteq> [])"
| "truthy (JArr xs) = True"
| "truthy (JObj fs) = True"

text \<open>
  Destructuring or reading a property of \<^verbatim>\<open>null\<close> or \<^verbatim>\<open>undefined\<close> throws a
  TypeError; the two places where the code can meet one (lines 120/157 on \<^verbatim>\<open>req.body\<close>,
  line 135 on \<^verbatim>\<open>resp.data\<close>) test \<open>nullish\<close> first and take the branch of the throw.
\<close>

fun nullish :: "jsval \<Rightarrow> bool" where
  "nullish JUndefined = True"
| "nullish JNull = True"
| "nullish v = False"

text \<open>
  \<^verbatim>\<open>v.name\<close> for a value that is not nullish, and for the property names this program
  reads (\<^verbatim>\<open>call_id\<close>, \<^verbatim>\<open>session\<close>, \<^verbatim>\<open>sdp\<close>, \<^verbatim>\<open>edge_session_id\<close>, \<^verbatim>\<open>sdp_answer\<close>,
  \<^verbatim>\<open>edgeSessionId\<close>: none of them lives on a prototype): the own property of an object,
  \<^verbatim>\<open>undefined\<close> on anything else.
\<close>

fun jsprop :: "jsval \<Rightarrow> string \<Rightarrow> jsval" where
  "jsprop (JObj fs) name = (case map_of fs name of Some v \<Rightarrow> v | None \<Rightarrow> JUndefined)"
| "jsprop v name = JUndefined"

section \<open>The call registry: \<^verbatim>\<open>activeCalls = new Map()\<close>\<close>

text \<open>
  A JavaScript \<^verbatim>\<open>Map\<close> keeps its entries in insertion order and compares keys with
  SameValueZero: primitives by value, objects and arrays by reference. Every key the
  handlers pass to the map is the \<^verbatim>\<open>call_id\<close> of the request being handled, freshly
  parsed, so a key that is an object or an array is never the same reference as a key
  stored by an earlier request. \<open>same_value_zero stored k\<close> compares a stored key
  with the key of the current request.
\<close>

fun primitive :: "jsval \<Rightarrow> bool" where
  "primitive (JArr xs) = False"
| "primitive (JObj fs) = False"
| "primitive v = True"

definition same_value_zero :: "jsval \<Rightarrow> jsval \<Rightarrow> bool" where
  "same_value_zero stored k = (primitive stored \<and> stored = k)"

type_synonym registry = "(jsval \<times> jsval) list"

text \<open>\<^verbatim>\<open>activeCalls.get(k)\<close>: the value stored under the key, \<^verbatim>\<open>undefined\<close> if there is none.\<close>

fun map_get :: "registry \<Rightarrow> jsval \<Rightarrow> jsval" where
  "map_get [] k = JUndefined"
| "map_get ((k', v) # m) k = (if same_value_zero k' k then v else map_get m k)"

text \<open>\<^verbatim>\<open>activeCalls.has(k)\<close> (not called by the program; it states that an entry exists).\<close>

fun map_has :: "registry \<Rightarrow> jsval \<Rightarrow> bool" where
  "map_has [] k = False"
| "map_has ((k', v) # m) k = (if same_value_zero k' k then True else map_has m k)"

text \<open>\<^verbatim>\<open>activeCalls.set(k, v)\<close>: replaces the value of an existing entry in place, appends otherwise.\<close>

fun map_set :: "registry \<Rightarrow> jsval \<Rightarrow> jsval \<Rightarrow> registry" where
  "map_set [] k v = [(k, v)]"
| "map_set ((k', v') # m) k v =
     (if same_value_zero k' k then (k', v) # m else (k', v') # map_set m k v)"

text \<open>\<^verbatim>\<open>activeCalls.delete(k)\<close>: removes the entry of the key, if any.\<close>

fun map_delete :: "registry \<Rightarrow> jsval \<Rightarrow> registry" where
  "map_delete [] k = []"
| "map_delete ((k', v') # m) k =
     (if same_value_zero k' k then map_delete m k else (k', v') # map_delete m k)"

text \<open>The number of entries stored under a key.\<close>

definition entries_for :: "registry \<Rightarrow> jsval \<Rightarrow> nat" where
  "entries_for m k = length (filter (\<lambda>(k', v). same_value_zero k' k) m)"

section \<open>Remote calls, their outcomes and what a handler does\<close>

text \<open>
  The five POST requests of the program, with the values they are built from:
  \<^item> \<open>Negotiate callId sdpOffer\<close>: \<^verbatim>\<open>axios.post(EDGE_API/webrtc/new, {call_id, sdp_offer})\<close>, line 131;
  \<^item> \<open>PreAccept callId sdpAnswer\<close>: \<^verbatim>\<open>preAccept\<close>, lines 74-79;
  \<^item> \<open>Accept callId\<close>: \<^verbatim>\<open>accept\<close>, lines 87-89;
  \<^item> \<open>Hangup edgeSessionId\<close>: \<^verbatim>\<open>axios.post(EDGE_API/webrtc/hangup, {edge_session_id})\<close>, line 163;
  \<^item> \<open>Terminate callId\<close>: the request inside \<^verbatim>\<open>terminate\<close>, line 100.
\<close>

datatype remote =
    Negotiate jsval jsval
  | PreAccept jsval jsval
  | Accept jsval
  | Hangup jsval
  | Terminate jsval

text \<open>
  An awaited request either resolves, with the \<^verbatim>\<open>data\<close> of the response, or rejects
  (network error, timeout, a status outside 2xx): the \<^verbatim>\<open>await\<close> then throws.
\<close>

datatype outcome = Resolves jsval | Rejects

datatype level = Info | Warn | Err

text \<open>
  What can be observed of a handler, in order: a request is sent, an awaited request
  settles, a line is logged at level info, warn or error (the debug lines of
  \<^verbatim>\<open>callWaba\<close> are left out), the HTTP reply is sent (\<^verbatim>\<open>res.status(n).send(text)\<close> or
  \<^verbatim>\<open>res.sendStatus(n)\<close>), or a TypeError escapes the handler, which then sends no
  reply of its own.
\<close>

datatype event =
    Invoke remote
  | Settle remote outcome
  | Log level string
  | Send nat string
  | SendStatus nat
  | Uncaught

text \<open>
  The handlers are \<^verbatim>\<open>async\<close>: each runs until its next \<^verbatim>\<open>await\<close> and is suspended
  there, holding the local variables it still needs, until the request settles.
\<close>

datatype suspended =
    AwaitNegotiate jsval jsval   \<comment> \<open>line 131: callId, session.sdp\<close>
  | AwaitPreAccept jsval jsval   \<comment> \<open>line 142: callId, sdpAnswer\<close>
  | AwaitAccept jsval            \<comment> \<open>line 143: callId\<close>
  | AwaitHangup jsval jsval      \<comment> \<open>line 163: callId, state.edgeSessionId\<close>
  | AwaitTerminate jsval         \<comment> \<open>line 169 (100): callId\<close>
  | Done

section \<open>The connect and terminate handlers\<close>

text \<open>
  \<^verbatim>\<open>app.post('/wa/calling/connect', ...)\<close>, lines 119-131, from the arrival of the
  request to the first \<^verbatim>\<open>await\<close>.
\<close>

definition connect_start :: "jsval \<Rightarrow> registry \<Rightarrow> registry \<times> event list \<times> suspended" where
  "connect_start body activeCalls =
     (if nullish body then (activeCalls, [Uncaught], Done)
      else
        let callId = jsprop body ''call_id''; session = jsprop body ''session'' in
        if \<not> truthy callId \<or> \<not> truthy session \<or> \<not> truthy (jsprop session ''sdp'')
        then (activeCalls, [Send 400 ''Invalid payload''], Done)
        else (activeCalls,
              [Log Info ''Received connect webhook'',
               Invoke (Negotiate callId (jsprop session ''sdp''))],
              AwaitNegotiate callId (jsprop session ''sdp'')))"

text \<open>The \<^verbatim>\<open>catch\<close> blocks of the two handlers, lines 145-148 and 171-174.\<close>

definition connect_catch :: "registry \<Rightarrow> registry \<times> event list \<times> suspended" where
  "connect_catch activeCalls =
     (activeCalls, [Log Err ''Error handling connect'', SendStatus 500], Done)"

definition terminate_catch :: "registry \<Rightarrow> registry \<times> event list \<times> suspended" where
  "terminate_catch activeCalls =
     (activeCalls, [Log Err ''Error handling terminate'', SendStatus 500], Done)"

text \<open>
  \<^verbatim>\<open>app.post('/wa/calling/terminate', ...)\<close>, lines 156-169, up to the first
  \<^verbatim>\<open>await\<close>: the hangup of line 163 when the registry holds a state with an edge
  session, the request of \<^verbatim>\<open>terminate\<close> (line 100) otherwise.
\<close>

definition terminate_start :: "jsval \<Rightarrow> registry \<Rightarrow> registry \<times> event list \<times> suspended" where
  "terminate_start body activeCalls =
     (if nullish body then (activeCalls, [Uncaught], Done)
      else
        let callId = jsprop body ''call_id''; state = map_get activeCalls callId in
        if truthy state \<and> truthy (jsprop state ''edgeSessionId'')
        then (activeCalls,
              [Log Info ''Received terminate webhook'',
               Invoke (Hangup (jsprop state ''edgeSessionId''))],
              AwaitHangup callId (jsprop state ''edgeSessionId''))
        else (activeCalls,
              [Log Info ''Received terminate webhook'', Invoke (Terminate callId)],
              AwaitTerminate callId))"

text \<open>
  A suspended handler resumes when its request settles and runs to its next
  \<^verbatim>\<open>await\<close> or to its end, on the registry as it is at that moment.
  \<^item> After line 131: lines 135-142, or the \<^verbatim>\<open>catch\<close>.
  \<^item> After \<^verbatim>\<open>preAccept\<close>: line 143; after \<^verbatim>\<open>accept\<close>: line 144.
  \<^item> After the hangup: lines 166-169.
  \<^item> After the request of \<^verbatim>\<open>terminate\<close>: its own \<^verbatim>\<open>catch\<close> (lines 101-103) logs a
    rejection and swallows it, then line 170.
\<close>

fun resume :: "suspended \<Rightarrow> outcome \<Rightarrow> registry \<Rightarrow> registry \<times> event list \<times> suspended" where
  "resume (AwaitNegotiate callId sdpOffer) Rejects activeCalls = connect_catch activeCalls"
| "resume (AwaitNegotiate callId sdpOffer) (Resolves data) activeCalls =
     (if nullish data then connect_catch activeCalls
      else
        let edgeSessionId = jsprop data ''edge_session_id''; sdpAnswer = jsprop data ''sdp_answer'' in
        if \<not> truthy edgeSessionId \<or> \<not> truthy sdpAnswer then connect_catch activeCalls
        else (map_set activeCalls callId (JObj [(''edgeSessionId'', edgeSessionId)]),
              [Invoke (PreAccept callId sdpAnswer)],
              AwaitPreAccept callId sdpAnswer))"
| "resume (AwaitPreAccept callId sdpAnswer) Rejects activeCalls = connect_catch activeCalls"
| "resume (AwaitPreAccept callId sdpAnswer) (Resolves data) activeCalls =
     (activeCalls, [Invoke (Accept callId)], AwaitAccept callId)"
| "resume (AwaitAccept callId) Rejects activeCalls = connect_catch activeCalls"
| "resume (AwaitAccept callId) (Resolves data) activeCalls =
     (activeCalls, [SendStatus 200], Done)"
| "resume (AwaitHangup callId edgeSessionId) Rejects activeCalls = terminate_catch activeCalls"
| "resume (AwaitHangup callId edgeSessionId) (Resolves data) activeCalls =
     (map_delete activeCalls callId, [Invoke (Terminate callId)], AwaitTerminate callId)"
| "resume (AwaitTerminate callId) Rejects activeCalls =
     (activeCalls, [Log Warn ''Failed to call terminate'', SendStatus 200], Done)"
| "resume (AwaitTerminate callId) (Resolves data) activeCalls =
     (activeCalls, [SendStatus 200], Done)"
| "resume Done out activeCalls = (activeCalls, [], Done)"

text \<open>The request a suspended handler waits for, as the event of its settling.\<close>

fun settled :: "suspended \<Rightarrow> outcome \<Rightarrow> event list" where
  "settled (AwaitNegotiate callId sdpOffer) out = [Settle (Negotiate callId sdpOffer) out]"
| "settled (AwaitPreAccept callId sdpAnswer) out = [Settle (PreAccept callId sdpAnswer) out]"
| "settled (AwaitAccept callId) out = [Settle (Accept callId) out]"
| "settled (AwaitHangup callId edgeSessionId) out = [Settle (Hangup edgeSessionId) out]"
| "settled (AwaitTerminate callId) out = [Settle (Terminate callId) out]"
| "settled Done out = []"

section \<open>One flow, run on its own\<close>

text \<open>
  A flow is one handler run from the arrival of its request, with the outcomes of the
  requests it awaits given in order and no other handler running in between. It stops
  at \<open>Done\<close>; with too few outcomes it stays suspended.
\<close>

fun drive :: "outcome list \<Rightarrow> registry \<times> event list \<times> suspended \<Rightarrow> registry \<times> event list \<times> suspended" where
  "drive [] st = st"
| "drive (out # outs) (activeCalls, trace, Done) = (activeCalls, trace, Done)"
| "drive (out # outs) (activeCalls, trace, s) =
     (case resume s out activeCalls of
        (activeCalls', evs, s') \<Rightarrow> drive outs (activeCalls', trace @ settled s out @ evs, s'))"

definition connect_flow :: "jsval \<Rightarrow> outcome list \<Rightarrow> registry \<Rightarrow> registry \<times> event list \<times> suspended" where
  "connect_flow body outs activeCalls = drive outs (connect_start body activeCalls)"

definition terminate_flow :: "jsval \<Rightarrow> outcome list \<Rightarrow> registry \<Rightarrow> registry \<times> event list \<times> suspended" where
  "terminate_flow body outs activeCalls = drive outs (terminate_start body activeCalls)"

text \<open>
  The order of the remote calls, as a property of a trace: wherever pre-accept is sent,
  a negotiate for the same call has settled before with a response carrying both
  fields, whose answer is the one sent; wherever accept is sent, a pre-accept for the
  same call has settled successfully before.
\<close>

definition sequenced :: "event list \<Rightarrow> bool" where
  "sequenced trace \<longleftrightarrow>
     (\<forall>pre c a post. trace = pre @ Invoke (PreAccept c a) # post \<longrightarrow>
        (\<exists>sdpOffer data. Settle (Negotiate c sdpOffer) (Resolves data) \<in> set pre
           \<and> truthy (jsprop data ''edge_session_id'') \<and> truthy (jsprop data ''sdp_answer'')
           \<and> a = jsprop data ''sdp_answer''))
   \<and> (\<forall>pre c post. trace = pre @ Invoke (Accept c) # post \<longrightarrow>
        (\<exists>a data. Settle (PreAccept c a) (Resolves data) \<in> set pre))"

section \<open>The server: handlers interleaved at their awaits\<close>

text \<open>
  Node runs one handler at a time, but a handler suspended at an \<^verbatim>\<open>await\<close> lets other
  requests in. A state of the server is the registry with the handlers in flight; it
  changes when a request arrives and when an awaited request settles, in any order.
\<close>

inductive reachable :: "registry \<Rightarrow> suspended list \<Rightarrow> bool" where
  init: "reachable [] []"
| connect_arrives:
    "reachable activeCalls hs \<Longrightarrow> connect_start body activeCalls = (activeCalls', evs, s)
     \<Longrightarrow> reachable activeCalls' (hs @ [s])"
| terminate_arrives:
    "reachable activeCalls hs \<Longrightarrow> terminate_start body activeCalls = (activeCalls', evs, s)
     \<Longrightarrow> reachable activeCalls' (hs @ [s])"
| settles:
    "reachable activeCalls hs \<Longrightarrow> i < length hs
     \<Longrightarrow> resume (hs ! i) out activeCalls = (activeCalls', evs, s)
     \<Longrightarrow> reachable activeCalls' (hs[i := s])"

section \<open>Facts about values, the registry and single steps\<close>

lemma drive_Done: "drive outs (m, tr, Done) = (m, tr, Done)"
  by (cases outs) simp_all

lemma truthy_jsprop_not_nullish: "truthy (jsprop v name) \<Longrightarrow> \<not> nullish v"
  by (cases v) simp_all

lemma truthy_jsprop_truthy: "truthy (jsprop v name) \<Longrightarrow> truthy v"
  by (cases v) simp_all

lemma map_get_not_has: "\<not> map_has m k \<Longrightarrow> map_get m k = JUndefined"
  by (induction m) (auto split: if_splits)

lemma map_has_delete: "\<not> map_has (map_delete m k) k"
  by (induction m) (auto split: if_splits)

lemma map_get_delete: "map_get (map_delete m k) k = JUndefined"
  by (induction m) auto

lemma map_get_set: "primitive k \<Longrightarrow> map_get (map_set m k v) k = v"
  by (induction m) (auto simp: same_value_zero_def)

lemma map_has_primitive: "map_has m k \<Longrightarrow> primitive k"
  by (induction m) (auto simp: same_value_zero_def split: if_splits)

lemma entries_for_Nil: "entries_for [] k = 0"
  by (simp add: entries_for_def)

lemma entries_for_Cons:
  "entries_for ((k', v) # m) k = (if same_value_zero k' k then Suc (entries_for m k) else entries_for m k)"
  by (simp add: entries_for_def)

lemma entries_for_zero: "entries_for m k = 0 \<longleftrightarrow> \<not> map_has m k"
  by (induction m) (auto simp: entries_for_Nil entries_for_Cons split: if_splits)

lemma entries_for_delete: "entries_for (map_delete m k) k' \<le> entries_for m k'"
  by (induction m) (auto simp: entries_for_Nil entries_for_Cons)

lemma entries_for_set:
  "entries_for (map_set m k v) k' =
     (if map_has m k then entries_for m k'
      else if same_value_zero k k' then Suc (entries_for m k') else entries_for m k')"
  by (induction m) (auto simp: entries_for_Nil entries_for_Cons split: if_splits)

lemma entries_for_set_le:
  assumes "\<And>k'. entries_for m k' \<le> 1"
  shows "entries_for (map_set m k v) k' \<le> 1"
proof (cases "map_has m k")
  case True
  then show ?thesis using assms by (simp add: entries_for_set)
next
  case False
  show ?thesis
  proof (cases "same_value_zero k k'")
    case True
    then have "k' = k" by (simp add: same_value_zero_def)
    with False have "entries_for m k' = 0" by (simp add: entries_for_zero)
    with False True show ?thesis by (simp add: entries_for_set)
  next
    case no: False
    with False show ?thesis using assms by (simp add: entries_for_set)
  qed
qed

lemma connect_start_valid:
  assumes "truthy (jsprop body ''call_id'')" and "truthy (jsprop (jsprop body ''session'') ''sdp'')"
  shows "connect_start body m =
           (m, [Log Info ''Received connect webhook'',
                Invoke (Negotiate (jsprop body ''call_id'') (jsprop (jsprop body ''session'') ''sdp''))],
            AwaitNegotiate (jsprop body ''call_id'') (jsprop (jsprop body ''session'') ''sdp''))"
  using assms truthy_jsprop_not_nullish [OF assms(1)] truthy_jsprop_truthy [OF assms(2)]
  by (simp add: connect_start_def Let_def)

lemma resume_negotiate_valid:
  assumes "truthy (jsprop data ''edge_session_id'')" and "truthy (jsprop data ''sdp_answer'')"
  shows "resume (AwaitNegotiate c offer) (Resolves data) m =
           (map_set m c (JObj [(''edgeSessionId'', jsprop data ''edge_session_id'')]),
            [Invoke (PreAccept c (jsprop data ''sdp_answer''))],
            AwaitPreAccept c (jsprop data ''sdp_answer''))"
  using assms truthy_jsprop_not_nullish [OF assms(1)] by (simp add: Let_def)

lemma resume_negotiate_invalid:
  assumes "\<not> truthy (jsprop data ''edge_session_id'') \<or> \<not> truthy (jsprop data ''sdp_answer'')"
  shows "resume (AwaitNegotiate c offer) (Resolves data) m = connect_catch m"
  using assms by (auto simp: Let_def)

lemma terminate_start_hangup:
  assumes "\<not> nullish body" and "truthy (jsprop (map_get m (jsprop body ''call_id'')) ''edgeSessionId'')"
  shows "terminate_start body m =
           (m, [Log Info ''Received terminate webhook'',
                Invoke (Hangup (jsprop (map_get m (jsprop body ''call_id'')) ''edgeSessionId''))],
            AwaitHangup (jsprop body ''call_id'')
              (jsprop (map_get m (jsprop body ''call_id'')) ''edgeSessionId''))"
  using assms truthy_jsprop_truthy [OF assms(2)] by (simp add: terminate_start_def Let_def)

lemma terminate_start_notify:
  assumes "\<not> nullish body" and "\<not> truthy (jsprop (map_get m (jsprop body ''call_id'')) ''edgeSessionId'')"
  shows "terminate_start body m =
           (m, [Log Info ''Received terminate webhook'', Invoke (Terminate (jsprop body ''call_id''))],
            AwaitTerminate (jsprop body ''call_id''))"
  using assms by (simp add: terminate_start_def Let_def)

text \<open>What the handlers can do to the registry and to the handlers in flight.\<close>

lemma set_map_set: "set (map_set m k v) \<subseteq> insert (k, v) (set m)"
  by (induction m) (auto simp: same_value_zero_def split: if_splits)

lemma set_map_delete: "set (map_delete m k) \<subseteq> set m"
  by (induction m) (auto split: if_splits)

lemma connect_start_registry: "fst (connect_start body m) = m"
  by (simp add: connect_start_def Let_def)

lemma terminate_start_registry: "fst (terminate_start body m) = m"
  by (simp add: terminate_start_def Let_def)

lemma connect_start_suspended:
  "snd (snd (connect_start body m)) = AwaitNegotiate c offer \<Longrightarrow> truthy c"
  by (auto simp: connect_start_def Let_def split: if_splits)

lemma terminate_start_suspended:
  "snd (snd (terminate_start body m)) \<noteq> AwaitNegotiate c offer"
  by (simp add: terminate_start_def Let_def)

lemma resume_suspended: "snd (snd (resume s out m)) \<noteq> AwaitNegotiate c offer"
  by (cases "(s, out, m)" rule: resume.cases)
    (simp_all add: connect_catch_def terminate_catch_def Let_def)

text \<open>A step changes the registry in one of two ways only.\<close>

lemma resume_registry:
  "fst (resume s out m) = m
   \<or> (\<exists>c offer data. s = AwaitNegotiate c offer \<and> out = Resolves data
        \<and> truthy (jsprop data ''edge_session_id'') \<and> truthy (jsprop data ''sdp_answer'')
        \<and> fst (resume s out m) = map_set m c (JObj [(''edgeSessionId'', jsprop data ''edge_session_id'')]))
   \<or> (\<exists>c e data. s = AwaitHangup c e \<and> out = Resolves data \<and> fst (resume s out m) = map_delete m c)"
  by (cases "(s, out, m)" rule: resume.cases)
    (auto simp: connect_catch_def terminate_catch_def Let_def)

text \<open>
  In every reachable state: the keys and the stored edge sessions are truthy, no key
  has two entries, and a connect handler waiting for the edge holds a truthy call id.
\<close>

lemma reachable_invariant:
  assumes "reachable m hs"
  shows "(\<forall>(k, v) \<in> set m. truthy k \<and> truthy (jsprop v ''edgeSessionId''))
       \<and> (\<forall>k. entries_for m k \<le> 1)
       \<and> (\<forall>c offer. AwaitNegotiate c offer \<in> set hs \<longrightarrow> truthy c)"
  using assms
proof (induction rule: reachable.induct)
  case init
  show ?case by (simp add: entries_for_Nil)
next
  case (connect_arrives m hs body m' evs s)
  have "m' = m" using connect_start_registry [of body m] connect_arrives.hyps(2) by simp
  moreover have "\<And>c offer. s = AwaitNegotiate c offer \<Longrightarrow> truthy c"
    using connect_start_suspended [of body m] connect_arrives.hyps(2) by simp
  ultimately show ?case using connect_arrives.IH by auto
next
  case (terminate_arrives m hs body m' evs s)
  have "m' = m" using terminate_start_registry [of body m] terminate_arrives.hyps(2) by simp
  moreover have "\<And>c offer. s \<noteq> AwaitNegotiate c offer"
    using terminate_start_suspended [of body m] terminate_arrives.hyps(2) by simp
  ultimately show ?case using terminate_arrives.IH by auto
next
  case (settles m hs i out m' evs s)
  have s: "\<And>c offer. s \<noteq> AwaitNegotiate c offer"
    using resume_suspended [of "hs ! i" out m] settles.hyps(3) by simp
  have hs: "\<forall>c offer. AwaitNegotiate c offer \<in> set (hs[i := s]) \<longrightarrow> truthy c"
    using settles.IH s set_update_subset_insert [of hs i s] by blast
  have m': "fst (resume (hs ! i) out m) = m'" using settles.hyps(3) by simp
  consider (same) "m' = m"
    | (stored) c offer data where "hs ! i = AwaitNegotiate c offer"
        "truthy (jsprop data ''edge_session_id'')"
        "m' = map_set m c (JObj [(''edgeSessionId'', jsprop data ''edge_session_id'')])"
    | (deleted) c where "m' = map_delete m c"
    using resume_registry [of "hs ! i" out m] m' by auto
  then show ?case
  proof cases
    case same
    then show ?thesis using settles.IH hs by simp
  next
    case stored
    have "AwaitNegotiate c offer \<in> set hs"
      using stored(1) settles.hyps(2) nth_mem [of i hs] by simp
    then have c: "truthy c" using settles.IH by blast
    have "\<forall>(k, v) \<in> set m'. truthy k \<and> truthy (jsprop v ''edgeSessionId'')"
      using settles.IH c stored(2,3)
        set_map_set [of m c "JObj [(''edgeSessionId'', jsprop data ''edge_session_id'')]"]
      by auto
    moreover have "\<forall>k. entries_for m' k \<le> 1"
      using settles.IH stored(3) entries_for_set_le by simp
    ultimately show ?thesis using hs by simp
  next
    case deleted
    have "\<forall>(k, v) \<in> set m'. truthy k \<and> truthy (jsprop v ''edgeSessionId'')"
      using settles.IH deleted set_map_delete [of m c] by auto
    moreover have "\<forall>k. entries_for m' k \<le> 1"
    proof
      fix k
      have "entries_for m' k \<le> entries_for m k" using deleted entries_for_delete by simp
      also have "\<dots> \<le> 1" using settles.IH by simp
      finally show "entries_for m' k \<le> 1" .
    qed
    ultimately show ?thesis using hs by simp
  qed
qed

text \<open>
  A flow run on its own is one of the runs of the server: the states it passes through
  are reachable.
\<close>

lemma drive_reachable:
  "reachable m (hs @ [s]) \<Longrightarrow> drive outs (m, tr, s) = (m', tr', s') \<Longrightarrow> reachable m' (hs @ [s'])"
proof (induction outs arbitrary: m tr s)
  case Nil
  then show ?case by simp
next
  case (Cons out outs)
  show ?case
  proof (cases "s = Done")
    case True
    then show ?thesis using Cons.prems by simp
  next
    case False
    obtain m1 evs s1 where r: "resume s out m = (m1, evs, s1)"
      by (cases "resume s out m") auto
    have "reachable m1 ((hs @ [s])[length hs := s1])"
      using reachable.settles [OF Cons.prems(1), of "length hs" out m1 evs s1] r by simp
    then have "reachable m1 (hs @ [s1])" by simp
    moreover have "drive outs (m1, tr @ settled s out @ evs, s1) = (m', tr', s')"
      using Cons.prems(2) False r by (cases s) simp_all
    ultimately show ?thesis using Cons.IH by blast
  qed
qed

lemma connect_flow_reachable:
  assumes "reachable m hs" and "connect_flow body outs m = (m', tr, s)"
  shows "reachable m' (hs @ [s])"
proof -
  obtain m0 tr0 s0 where st: "connect_start body m = (m0, tr0, s0)"
    by (cases "connect_start body m") auto
  have "reachable m0 (hs @ [s0])" using reachable.connect_arrives [OF assms(1) st] .
  then show ?thesis using drive_reachable assms(2) st by (simp add: connect_flow_def)
qed

lemma terminate_flow_reachable:
  assumes "reachable m hs" and "terminate_flow body outs m = (m', tr, s)"
  shows "reachable m' (hs @ [s])"
proof -
  obtain m0 tr0 s0 where st: "terminate_start body m = (m0, tr0, s0)"
    by (cases "terminate_start body m") auto
  have "reachable m0 (hs @ [s0])" using reachable.terminate_arrives [OF assms(1) st] .
  then show ?thesis using drive_reachable assms(2) st by (simp add: terminate_flow_def)
qed

lemma falsy_key_not_stored:
  "\<forall>(k, v) \<in> set m. truthy k \<Longrightarrow> \<not> truthy c \<Longrightarrow> \<not> map_has m c"
  by (induction m) (auto simp: same_value_zero_def split: if_splits)

lemma drive_events:
  assumes "\<And>s out m e. e \<in> set (settled s out @ fst (snd (resume s out m))) \<Longrightarrow> Q e"
  shows "\<forall>e \<in> set tr. Q e \<Longrightarrow> \<forall>e \<in> set (fst (snd (drive outs (m, tr, s)))). Q e"
proof (induction outs arbitrary: m tr s)
  case Nil
  then show ?case by simp
next
  case (Cons out outs)
  show ?case
  proof (cases "s = Done")
    case True
    then show ?thesis using Cons.prems by simp
  next
    case False
    have "\<forall>e \<in> set (tr @ settled s out @ fst (snd (resume s out m))). Q e"
      using Cons.prems assms [of _ s out m] by auto
    then have "\<forall>e \<in> set (fst (snd (drive outs (fst (resume s out m),
        tr @ settled s out @ fst (snd (resume s out m)), snd (snd (resume s out m)))))). Q e"
      by (rule Cons.IH)
    then show ?thesis using False by (cases s) (simp_all add: split_beta)
  qed
qed

lemma resume_replies:
  "e \<in> set (settled s out @ fst (snd (resume s out m)))
   \<Longrightarrow> (\<forall>n text. e \<noteq> Send n text) \<and> (\<forall>n. e = SendStatus n \<longrightarrow> n = 200 \<or> n = 500)"
  by (cases "(s, out, m)" rule: resume.cases)
    (auto simp: connect_catch_def terminate_catch_def Let_def split: if_splits)

lemma same_value_zero_refl: "same_value_zero k k = primitive k"
  by (simp add: same_value_zero_def)

lemma entries_for_after_set:
  assumes "entries_for m k \<le> 1" and "primitive k"
  shows "entries_for (map_set m k v) k = 1"
proof (cases "map_has m k")
  case True
  then have "entries_for m k \<noteq> 0" by (simp add: entries_for_zero)
  with assms(1) True show ?thesis by (simp add: entries_for_set)
next
  case False
  then have "entries_for m k = 0" by (simp add: entries_for_zero)
  with False assms(2) show ?thesis by (simp add: entries_for_set same_value_zero_refl)
qed

text \<open>The order of the calls is kept by every step of a handler.\<close>

lemma split_snoc:
  "(tr @ [e] = pre @ x # post) =
     ((pre = tr \<and> x = e \<and> post = []) \<or> (\<exists>post'. post = post' @ [e] \<and> tr = pre @ x # post'))"
  by (cases post rule: rev_cases) auto

lemma sequenced_snoc:
  "sequenced (tr @ [e]) \<longleftrightarrow>
     sequenced tr
     \<and> (\<forall>c a. e = Invoke (PreAccept c a) \<longrightarrow>
          (\<exists>sdpOffer data. Settle (Negotiate c sdpOffer) (Resolves data) \<in> set tr
             \<and> truthy (jsprop data ''edge_session_id'') \<and> truthy (jsprop data ''sdp_answer'')
             \<and> a = jsprop data ''sdp_answer''))
     \<and> (\<forall>c. e = Invoke (Accept c) \<longrightarrow> (\<exists>a data. Settle (PreAccept c a) (Resolves data) \<in> set tr))"
  unfolding sequenced_def split_snoc by (intro iffI conjI; blast)

lemma sequenced_Nil: "sequenced []"
  by (simp add: sequenced_def)

lemma sequenced_append_quiet:
  assumes "sequenced tr"
    and "\<forall>e \<in> set es. (\<forall>c a. e \<noteq> Invoke (PreAccept c a)) \<and> (\<forall>c. e \<noteq> Invoke (Accept c))"
  shows "sequenced (tr @ es)"
  using assms(2)
proof (induction es rule: rev_induct)
  case Nil
  show ?case using assms(1) by simp
next
  case (snoc e es)
  then have "sequenced ((tr @ es) @ [e])" unfolding sequenced_snoc by simp
  then show ?case by simp
qed

lemma sequenced_resume:
  assumes "sequenced tr"
  shows "sequenced (tr @ settled s out @ fst (snd (resume s out m)))"
proof (cases "(s, out, m)" rule: resume.cases)
  case (2 callId sdpOffer data activeCalls)
  show ?thesis
  proof (cases "truthy (jsprop data ''edge_session_id'') \<and> truthy (jsprop data ''sdp_answer'')")
    case True
    then have n: "\<not> nullish data" by (auto dest: truthy_jsprop_not_nullish)
    have "sequenced (tr @ [Settle (Negotiate callId sdpOffer) (Resolves data)])"
      using assms by (simp add: sequenced_snoc)
    then have "sequenced ((tr @ [Settle (Negotiate callId sdpOffer) (Resolves data)])
        @ [Invoke (PreAccept callId (jsprop data ''sdp_answer''))])"
      unfolding sequenced_snoc using True by auto
    then show ?thesis using 2 True n by (simp add: Let_def)
  next
    case False
    have "sequenced (tr @ [Settle (Negotiate callId sdpOffer) (Resolves data),
        Log Err ''Error handling connect'', SendStatus 500])"
      using assms by (rule sequenced_append_quiet) simp
    then show ?thesis using 2 False by (auto simp: Let_def connect_catch_def)
  qed
next
  case (4 callId sdpAnswer data activeCalls)
  have "sequenced (tr @ [Settle (PreAccept callId sdpAnswer) (Resolves data)])"
    using assms by (simp add: sequenced_snoc)
  then have "sequenced ((tr @ [Settle (PreAccept callId sdpAnswer) (Resolves data)])
      @ [Invoke (Accept callId)])"
    unfolding sequenced_snoc by auto
  then show ?thesis using 4 by simp
qed (use assms in \<open>auto simp: connect_catch_def terminate_catch_def intro!: sequenced_append_quiet\<close>)

lemma drive_trace:
  assumes "\<And>tr s out m. P tr \<Longrightarrow> P (tr @ settled s out @ fst (snd (resume s out m)))"
  shows "P tr \<Longrightarrow> P (fst (snd (drive outs (m, tr, s))))"
proof (induction outs arbitrary: m tr s)
  case Nil
  then show ?case by simp
next
  case (Cons out outs)
  show ?case
  proof (cases "s = Done")
    case True
    then show ?thesis using Cons.prems by simp
  next
    case False
    have "P (tr @ settled s out @ fst (snd (resume s out m)))"
      using Cons.prems by (rule assms)
    then have "P (fst (snd (drive outs (fst (resume s out m),
        tr @ settled s out @ fst (snd (resume s out m)), snd (snd (resume s out m))))))"
      by (rule Cons.IH)
    then show ?thesis using False by (cases s) (simp_all add: split_beta)
  qed
qed

lemma connect_start_sequenced: "sequenced (fst (snd (connect_start body m)))"
proof -
  have "sequenced ([] @ [Uncaught])" "sequenced ([] @ [Send 400 ''Invalid payload''])"
    "\<And>c offer. sequenced (([] @ [Log Info ''Received connect webhook'']) @ [Invoke (Negotiate c offer)])"
    unfolding sequenced_snoc by (simp_all add: sequenced_Nil)
  then show ?thesis by (simp add: connect_start_def Let_def)
qed

section \<open>Malformed connect events\<close>

text \<open>
  Claim C6. A connect event whose payload lacks \<^verbatim>\<open>call_id\<close>, or whose SDP offer
  (\<^verbatim>\<open>session.sdp\<close>) is missing or empty, is answered 400 \<^verbatim>\<open>Invalid payload\<close>: the
  registry is left as it was, no request is sent to the edge or to the platform, and
  the handler has finished (it awaits nothing, whatever outcomes are held ready). The
  test of line 121 is \<^verbatim>\<open>!x\<close>, so null, false and 0 are refused like a missing or
  empty value.
\<close>

theorem connect_malformed_rejected:
  assumes "\<not> nullish body"
    and "\<not> truthy (jsprop body ''call_id'') \<or> \<not> truthy (jsprop body ''session'')
         \<or> \<not> truthy (jsprop (jsprop body ''session'') ''sdp'')"
  shows "connect_flow body outs activeCalls = (activeCalls, [Send 400 ''Invalid payload''], Done)"
  using assms by (auto simp: connect_flow_def connect_start_def drive_Done)

theorem connect_malformed_rejected_witness:
  "connect_flow (JObj [(''session'', JObj [(''sdp'', JStr ''O1'')])]) [Resolves JNull]
     [(JStr ''C0'', JObj [(''edgeSessionId'', JStr ''E0'')])]
   = ([(JStr ''C0'', JObj [(''edgeSessionId'', JStr ''E0'')])], [Send 400 ''Invalid payload''], Done)
   \<and> connect_flow (JObj [(''call_id'', JStr ''C1''), (''session'', JObj [(''sdp'', JStr [])])]) [] []
   = ([], [Send 400 ''Invalid payload''], Done)"
  using connect_malformed_rejected [of "JObj [(''session'', JObj [(''sdp'', JStr ''O1'')])]"
      "[Resolves JNull]" "[(JStr ''C0'', JObj [(''edgeSessionId'', JStr ''E0'')])]"]
    connect_malformed_rejected
      [of "JObj [(''call_id'', JStr ''C1''), (''session'', JObj [(''sdp'', JStr [])])]" "[]" "[]"]
  by simp

section \<open>A negotiate response without its fields\<close>

text \<open>
  Claim C5. When the edge answers the negotiate request with a response that lacks
  \<^verbatim>\<open>edge_session_id\<close> or \<^verbatim>\<open>sdp_answer\<close> (or carries an empty one: the test of line
  136 is \<^verbatim>\<open>!x\<close>), the connect flow fails like a rejected negotiate: it logs the error
  and answers 500, sends neither pre-accept nor accept, and leaves the registry as it
  was. The second conjunct says the same of the single step, on whatever the registry
  has become while the handler was suspended.
\<close>

theorem connect_bad_negotiate_response:
  assumes "truthy (jsprop body ''call_id'')"
    and "truthy (jsprop (jsprop body ''session'') ''sdp'')"
    and "\<not> truthy (jsprop data ''edge_session_id'') \<or> \<not> truthy (jsprop data ''sdp_answer'')"
  shows "connect_flow body (Resolves data # outs) activeCalls =
           (activeCalls,
            [Log Info ''Received connect webhook'',
             Invoke (Negotiate (jsprop body ''call_id'') (jsprop (jsprop body ''session'') ''sdp'')),
             Settle (Negotiate (jsprop body ''call_id'') (jsprop (jsprop body ''session'') ''sdp''))
               (Resolves data),
             Log Err ''Error handling connect'', SendStatus 500],
            Done)
         \<and> resume (AwaitNegotiate callId sdpOffer) (Resolves data) others =
             (others, [Log Err ''Error handling connect'', SendStatus 500], Done)"
  using assms(3)
  by (simp add: connect_flow_def connect_start_valid [OF assms(1,2)] resume_negotiate_invalid
      connect_catch_def drive_Done)

theorem connect_bad_negotiate_response_witness:
  "connect_flow
     (JObj [(''call_id'', JStr ''C1''), (''session'', JObj [(''sdp'', JStr ''O1'')])])
     [Resolves (JObj [(''sdp_answer'', JStr ''A1'')]), Resolves JNull, Resolves JNull] []
   = ([],
      [Log Info ''Received connect webhook'',
       Invoke (Negotiate (JStr ''C1'') (JStr ''O1'')),
       Settle (Negotiate (JStr ''C1'') (JStr ''O1'')) (Resolves (JObj [(''sdp_answer'', JStr ''A1'')])),
       Log Err ''Error handling connect'', SendStatus 500],
      Done)"
  using connect_bad_negotiate_response
    [of "JObj [(''call_id'', JStr ''C1''), (''session'', JObj [(''sdp'', JStr ''O1'')])]"
      "JObj [(''sdp_answer'', JStr ''A1'')]" "[Resolves JNull, Resolves JNull]" "[]"]
  by simp

section \<open>Connect: pre-accept or accept fails after a successful negotiate\<close>

text \<open>
  Claim C2 says that the connect flow then sends hangup for the call's edge session,
  removes the registry entry and only then reports the failure. The handler has no
  such compensation: its \<^verbatim>\<open>catch\<close> (lines 145-148) logs and answers 500. Scenario C of
  the specification, run on the code: negotiate returns E1, pre-accept succeeds,
  accept fails. No hangup is sent and the entry of C1 is still in the registry.
\<close>

theorem connect_acceptance_failure_counterexample:
  "connect_flow
     (JObj [(''call_id'', JStr ''C1''), (''session'', JObj [(''sdp'', JStr ''O1'')])])
     [Resolves (JObj [(''edge_session_id'', JStr ''E1''), (''sdp_answer'', JStr ''A1'')]),
      Resolves JNull, Rejects] []
   = ([(JStr ''C1'', JObj [(''edgeSessionId'', JStr ''E1'')])],
      [Log Info ''Received connect webhook'',
       Invoke (Negotiate (JStr ''C1'') (JStr ''O1'')),
       Settle (Negotiate (JStr ''C1'') (JStr ''O1''))
         (Resolves (JObj [(''edge_session_id'', JStr ''E1''), (''sdp_answer'', JStr ''A1'')])),
       Invoke (PreAccept (JStr ''C1'') (JStr ''A1'')),
       Settle (PreAccept (JStr ''C1'') (JStr ''A1'')) (Resolves JNull),
       Invoke (Accept (JStr ''C1'')),
       Settle (Accept (JStr ''C1'')) Rejects,
       Log Err ''Error handling connect'', SendStatus 500],
      Done)"
  by (simp add: connect_flow_def connect_start_def connect_catch_def same_value_zero_def Let_def)

text \<open>
  Claim C2, as the code has it: when negotiate has returned both fields and then
  pre-accept fails, or pre-accept succeeds and accept fails, the flow logs the error
  and answers 500; it sends no hangup (the trace below is all it does), and the entry
  stored at line 140 stays in the registry with the edge session of this negotiation.
\<close>

theorem connect_acceptance_failure_keeps_session:
  assumes "truthy (jsprop body ''call_id'')"
    and "truthy (jsprop (jsprop body ''session'') ''sdp'')"
    and "truthy (jsprop data ''edge_session_id'')"
    and "truthy (jsprop data ''sdp_answer'')"
  shows "connect_flow body (Resolves data # Rejects # outs) activeCalls =
           (map_set activeCalls (jsprop body ''call_id'')
              (JObj [(''edgeSessionId'', jsprop data ''edge_session_id'')]),
            [Log Info ''Received connect webhook'',
             Invoke (Negotiate (jsprop body ''call_id'') (jsprop (jsprop body ''session'') ''sdp'')),
             Settle (Negotiate (jsprop body ''call_id'') (jsprop (jsprop body ''session'') ''sdp''))
               (Resolves data),
             Invoke (PreAccept (jsprop body ''call_id'') (jsprop data ''sdp_answer'')),
             Settle (PreAccept (jsprop body ''call_id'') (jsprop data ''sdp_answer'')) Rejects,
             Log Err ''Error handling connect'', SendStatus 500],
            Done)
       \<and> connect_flow body (Resolves data # Resolves data' # Rejects # outs) activeCalls =
           (map_set activeCalls (jsprop body ''call_id'')
              (JObj [(''edgeSessionId'', jsprop data ''edge_session_id'')]),
            [Log Info ''Received connect webhook'',
             Invoke (Negotiate (jsprop body ''call_id'') (jsprop (jsprop body ''session'') ''sdp'')),
             Settle (Negotiate (jsprop body ''call_id'') (jsprop (jsprop body ''session'') ''sdp''))
               (Resolves data),
             Invoke (PreAccept (jsprop body ''call_id'') (jsprop data ''sdp_answer'')),
             Settle (PreAccept (jsprop body ''call_id'') (jsprop data ''sdp_answer'')) (Resolves data'),
             Invoke (Accept (jsprop body ''call_id'')),
             Settle (Accept (jsprop body ''call_id'')) Rejects,
             Log Err ''Error handling connect'', SendStatus 500],
            Done)
       \<and> (primitive (jsprop body ''call_id'') \<longrightarrow>
            map_get (map_set activeCalls (jsprop body ''call_id'')
              (JObj [(''edgeSessionId'', jsprop data ''edge_session_id'')])) (jsprop body ''call_id'')
            = JObj [(''edgeSessionId'', jsprop data ''edge_session_id'')])"
  by (simp add: connect_flow_def connect_start_valid [OF assms(1,2)]
      resume_negotiate_valid [OF assms(3,4)] connect_catch_def drive_Done map_get_set
      del: resume.simps(2))

theorem connect_acceptance_failure_keeps_session_witness:
  "connect_flow
     (JObj [(''call_id'', JStr ''C1''), (''session'', JObj [(''sdp'', JStr ''O1'')])])
     [Resolves (JObj [(''edge_session_id'', JStr ''E1''), (''sdp_answer'', JStr ''A1'')]), Rejects] []
   = ([(JStr ''C1'', JObj [(''edgeSessionId'', JStr ''E1'')])],
      [Log Info ''Received connect webhook'',
       Invoke (Negotiate (JStr ''C1'') (JStr ''O1'')),
       Settle (Negotiate (JStr ''C1'') (JStr ''O1''))
         (Resolves (JObj [(''edge_session_id'', JStr ''E1''), (''sdp_answer'', JStr ''A1'')])),
       Invoke (PreAccept (JStr ''C1'') (JStr ''A1'')),
       Settle (PreAccept (JStr ''C1'') (JStr ''A1'')) Rejects,
       Log Err ''Error handling connect'', SendStatus 500],
      Done)
   \<and> map_get [(JStr ''C1'', JObj [(''edgeSessionId'', JStr ''E1'')])] (JStr ''C1'')
     = JObj [(''edgeSessionId'', JStr ''E1'')]"
  using connect_acceptance_failure_keeps_session
    [of "JObj [(''call_id'', JStr ''C1''), (''session'', JObj [(''sdp'', JStr ''O1'')])]"
      "JObj [(''edge_session_id'', JStr ''E1''), (''sdp_answer'', JStr ''A1'')]" "[]" "[]"]
  by simp

section \<open>Terminate: the hangup fails or succeeds\<close>

text \<open>
  Claim C3 says that terminate removes the session whatever the hangup does, and
  reports success. In the handler \<^verbatim>\<open>activeCalls.delete\<close> (line 166) comes after the
  awaited hangup inside the \<^verbatim>\<open>try\<close>: a rejected hangup jumps to the \<^verbatim>\<open>catch\<close>.
  Scenario E of the specification, run on the code: the entry of C1 stays, the
  platform is not notified, and the answer is 500.
\<close>

theorem terminate_hangup_failure_counterexample:
  "terminate_flow (JObj [(''call_id'', JStr ''C1'')]) [Rejects, Resolves JNull]
     [(JStr ''C1'', JObj [(''edgeSessionId'', JStr ''E1'')])]
   = ([(JStr ''C1'', JObj [(''edgeSessionId'', JStr ''E1'')])],
      [Log Info ''Received terminate webhook'',
       Invoke (Hangup (JStr ''E1'')),
       Settle (Hangup (JStr ''E1'')) Rejects,
       Log Err ''Error handling terminate'', SendStatus 500],
      Done)"
  by (simp add: terminate_flow_def terminate_start_def terminate_catch_def same_value_zero_def Let_def)

text \<open>
  Claim C3, as the code has it: for a call whose registry entry carries an edge
  session, a failed hangup leaves the entry in place, skips the platform terminate
  and answers 500; a successful hangup removes the entry, after which the platform
  terminate is attempted and the answer is 200 whether that attempt succeeds or not.
\<close>

theorem terminate_removes_after_hangup:
  assumes "\<not> nullish body"
    and "truthy (jsprop (map_get activeCalls (jsprop body ''call_id'')) ''edgeSessionId'')"
  shows "terminate_flow body (Rejects # outs) activeCalls =
           (activeCalls,
            [Log Info ''Received terminate webhook'',
             Invoke (Hangup (jsprop (map_get activeCalls (jsprop body ''call_id'')) ''edgeSessionId'')),
             Settle (Hangup (jsprop (map_get activeCalls (jsprop body ''call_id'')) ''edgeSessionId''))
               Rejects,
             Log Err ''Error handling terminate'', SendStatus 500],
            Done)
       \<and> terminate_flow body (Resolves data # out # outs) activeCalls =
           (map_delete activeCalls (jsprop body ''call_id''),
            [Log Info ''Received terminate webhook'',
             Invoke (Hangup (jsprop (map_get activeCalls (jsprop body ''call_id'')) ''edgeSessionId'')),
             Settle (Hangup (jsprop (map_get activeCalls (jsprop body ''call_id'')) ''edgeSessionId''))
               (Resolves data),
             Invoke (Terminate (jsprop body ''call_id'')),
             Settle (Terminate (jsprop body ''call_id'')) out]
            @ (case out of Rejects \<Rightarrow> [Log Warn ''Failed to call terminate''] | Resolves d \<Rightarrow> [])
            @ [SendStatus 200],
            Done)
       \<and> \<not> map_has (map_delete activeCalls (jsprop body ''call_id'')) (jsprop body ''call_id'')"
  by (cases out)
    (simp_all add: terminate_flow_def terminate_start_hangup [OF assms] terminate_catch_def
      drive_Done map_has_delete)

theorem terminate_removes_after_hangup_witness:
  "terminate_flow (JObj [(''call_id'', JStr ''C1'')]) [Resolves JNull, Rejects]
     [(JStr ''C1'', JObj [(''edgeSessionId'', JStr ''E1'')])]
   = ([],
      [Log Info ''Received terminate webhook'',
       Invoke (Hangup (JStr ''E1'')),
       Settle (Hangup (JStr ''E1'')) (Resolves JNull),
       Invoke (Terminate (JStr ''C1'')),
       Settle (Terminate (JStr ''C1'')) Rejects,
       Log Warn ''Failed to call terminate'', SendStatus 200],
      Done)"
  using terminate_removes_after_hangup
    [of "JObj [(''call_id'', JStr ''C1'')]" "[(JStr ''C1'', JObj [(''edgeSessionId'', JStr ''E1'')])]"
      "[]" JNull Rejects]
  by (simp add: same_value_zero_def)

section \<open>Every registry entry carries an edge session\<close>

text \<open>
  Claim C9. In every state the server can reach, under any interleaving of handlers,
  each registry entry carries an \<^verbatim>\<open>edgeSessionId\<close> that is truthy (so neither missing
  nor empty). The reason is in the steps: receiving a request changes nothing in the
  registry, and the only step that adds an entry is the connect handler resuming from
  a negotiate response in which both \<^verbatim>\<open>edge_session_id\<close> and \<^verbatim>\<open>sdp_answer\<close> are
  truthy; the entry it adds is \<^verbatim>\<open>{ edgeSessionId }\<close> with that id.
\<close>

theorem registry_entries_have_edge_session:
  assumes "reachable activeCalls hs"
  shows "(\<forall>(k, v) \<in> set activeCalls. truthy (jsprop v ''edgeSessionId''))
       \<and> fst (connect_start body m) = m \<and> fst (terminate_start body m) = m
       \<and> ((k, v) \<in> set (fst (resume s out m)) \<and> (k, v) \<notin> set m \<longrightarrow>
            (\<exists>sdpOffer data. s = AwaitNegotiate k sdpOffer \<and> out = Resolves data
               \<and> truthy (jsprop data ''edge_session_id'') \<and> truthy (jsprop data ''sdp_answer'')
               \<and> v = JObj [(''edgeSessionId'', jsprop data ''edge_session_id'')]))"
proof -
  have "\<forall>(k, v) \<in> set activeCalls. truthy (jsprop v ''edgeSessionId'')"
    using reachable_invariant [OF assms] by auto
  moreover have "\<exists>sdpOffer data. s = AwaitNegotiate k sdpOffer \<and> out = Resolves data
               \<and> truthy (jsprop data ''edge_session_id'') \<and> truthy (jsprop data ''sdp_answer'')
               \<and> v = JObj [(''edgeSessionId'', jsprop data ''edge_session_id'')]"
    if new: "(k, v) \<in> set (fst (resume s out m))" "(k, v) \<notin> set m"
  proof -
    consider (same) "fst (resume s out m) = m"
      | (stored) c offer data where "s = AwaitNegotiate c offer" "out = Resolves data"
          "truthy (jsprop data ''edge_session_id'')" "truthy (jsprop data ''sdp_answer'')"
          "fst (resume s out m) = map_set m c (JObj [(''edgeSessionId'', jsprop data ''edge_session_id'')])"
      | (deleted) c where "fst (resume s out m) = map_delete m c"
      using resume_registry [of s out m] by auto
    then show ?thesis
    proof cases
      case same
      then show ?thesis using new by simp
    next
      case stored
      have "(k, v) = (c, JObj [(''edgeSessionId'', jsprop data ''edge_session_id'')])"
        using new stored(5)
          set_map_set [of m c "JObj [(''edgeSessionId'', jsprop data ''edge_session_id'')]"]
        by auto
      then show ?thesis using stored(1-4) by simp
    next
      case deleted
      then show ?thesis using new set_map_delete [of m c] by auto
    qed
  qed
  ultimately show ?thesis
    by (simp add: connect_start_registry terminate_start_registry)
qed

theorem registry_entries_have_edge_session_witness:
  "truthy (jsprop (JObj [(''edgeSessionId'', JStr ''E1'')]) ''edgeSessionId'')
   \<and> [(JStr ''C1'', JObj [(''edgeSessionId'', JStr ''E1'')])] =
       fst (connect_flow
         (JObj [(''call_id'', JStr ''C1''), (''session'', JObj [(''sdp'', JStr ''O1'')])])
         [Resolves (JObj [(''edge_session_id'', JStr ''E1''), (''sdp_answer'', JStr ''A1'')])] [])"
proof -
  have flow: "connect_flow
         (JObj [(''call_id'', JStr ''C1''), (''session'', JObj [(''sdp'', JStr ''O1'')])])
         [Resolves (JObj [(''edge_session_id'', JStr ''E1''), (''sdp_answer'', JStr ''A1'')])] []
       = ([(JStr ''C1'', JObj [(''edgeSessionId'', JStr ''E1'')])],
          [Log Info ''Received connect webhook'',
           Invoke (Negotiate (JStr ''C1'') (JStr ''O1'')),
           Settle (Negotiate (JStr ''C1'') (JStr ''O1''))
             (Resolves (JObj [(''edge_session_id'', JStr ''E1''), (''sdp_answer'', JStr ''A1'')])),
           Invoke (PreAccept (JStr ''C1'') (JStr ''A1''))],
          AwaitPreAccept (JStr ''C1'') (JStr ''A1''))"
    by (simp add: connect_flow_def connect_start_def Let_def)
  have "reachable [(JStr ''C1'', JObj [(''edgeSessionId'', JStr ''E1'')])]
          ([] @ [AwaitPreAccept (JStr ''C1'') (JStr ''A1'')])"
    using connect_flow_reachable [OF reachable.init flow] .
  from registry_entries_have_edge_session [OF this] flow show ?thesis by simp
qed

section \<open>Terminate events are never refused\<close>

text \<open>
  Claim C10. The terminate handler validates nothing. For a body without \<^verbatim>\<open>call_id\<close>
  the call id is \<^verbatim>\<open>undefined\<close>; no reachable registry has an entry under it, so the
  hangup is skipped, the platform terminate is sent with the undefined id, and the
  answer is 200 whether that request succeeds or not. And whatever the body, the
  outcomes and the registry, the handler never answers with \<^verbatim>\<open>res.status(..).send(..)\<close>
  (the 400 of the connect handler): its only answers are 200 and 500.
\<close>

theorem terminate_without_call_id:
  assumes "reachable activeCalls hs" and "\<not> nullish body" and "jsprop body ''call_id'' = JUndefined"
  shows "terminate_flow body (out # outs) activeCalls =
           (activeCalls,
            [Log Info ''Received terminate webhook'',
             Invoke (Terminate JUndefined),
             Settle (Terminate JUndefined) out]
            @ (case out of Rejects \<Rightarrow> [Log Warn ''Failed to call terminate''] | Resolves d \<Rightarrow> [])
            @ [SendStatus 200],
            Done)
       \<and> (\<forall>n text. Send n text \<notin> set (fst (snd (terminate_flow body' outs' m'))))
       \<and> (\<forall>n. SendStatus n \<in> set (fst (snd (terminate_flow body' outs' m'))) \<longrightarrow> n = 200 \<or> n = 500)"
proof -
  have "\<not> map_has activeCalls JUndefined"
    using reachable_invariant [OF assms(1)] falsy_key_not_stored [of activeCalls JUndefined] by auto
  then have "map_get activeCalls (jsprop body ''call_id'') = JUndefined"
    using assms(3) by (simp add: map_get_not_has)
  then have start: "terminate_start body activeCalls =
      (activeCalls, [Log Info ''Received terminate webhook'', Invoke (Terminate JUndefined)],
       AwaitTerminate JUndefined)"
    using terminate_start_notify [of body activeCalls] assms(2,3) by simp
  have flow: "terminate_flow body (out # outs) activeCalls =
           (activeCalls,
            [Log Info ''Received terminate webhook'',
             Invoke (Terminate JUndefined),
             Settle (Terminate JUndefined) out]
            @ (case out of Rejects \<Rightarrow> [Log Warn ''Failed to call terminate''] | Resolves d \<Rightarrow> [])
            @ [SendStatus 200],
            Done)"
    by (cases out) (simp_all add: terminate_flow_def start drive_Done)
  obtain m0 tr0 s0 where st: "terminate_start body' m' = (m0, tr0, s0)"
    by (cases "terminate_start body' m'") auto
  have tr0: "\<forall>e \<in> set tr0. (\<forall>n text. e \<noteq> Send n text) \<and> (\<forall>n. e = SendStatus n \<longrightarrow> n = 200 \<or> n = 500)"
    using st by (auto simp: terminate_start_def Let_def split: if_splits)
  have "\<forall>e \<in> set (fst (snd (drive outs' (m0, tr0, s0)))).
          (\<forall>n text. e \<noteq> Send n text) \<and> (\<forall>n. e = SendStatus n \<longrightarrow> n = 200 \<or> n = 500)"
    using drive_events [where Q = "\<lambda>e. (\<forall>n text. e \<noteq> Send n text) \<and> (\<forall>n. e = SendStatus n \<longrightarrow> n = 200 \<or> n = 500)",
        OF resume_replies tr0] .
  then have "\<forall>e \<in> set (fst (snd (terminate_flow body' outs' m'))).
          (\<forall>n text. e \<noteq> Send n text) \<and> (\<forall>n. e = SendStatus n \<longrightarrow> n = 200 \<or> n = 500)"
    by (simp add: terminate_flow_def st)
  then show ?thesis using flow by blast
qed

theorem terminate_without_call_id_witness:
  "terminate_flow (JObj [(''reason'', JStr ''hangup'')]) [Rejects]
     [(JStr ''C1'', JObj [(''edgeSessionId'', JStr ''E1'')])]
   = ([(JStr ''C1'', JObj [(''edgeSessionId'', JStr ''E1'')])],
      [Log Info ''Received terminate webhook'',
       Invoke (Terminate JUndefined),
       Settle (Terminate JUndefined) Rejects,
       Log Warn ''Failed to call terminate'', SendStatus 200],
      Done)
   \<and> Send 400 ''Invalid payload'' \<notin> set (fst (snd (terminate_flow (JObj []) [Resolves JNull] [])))"
proof -
  have flow: "connect_flow
         (JObj [(''call_id'', JStr ''C1''), (''session'', JObj [(''sdp'', JStr ''O1'')])])
         [Resolves (JObj [(''edge_session_id'', JStr ''E1''), (''sdp_answer'', JStr ''A1'')]),
          Resolves JNull, Resolves JNull] []
       = ([(JStr ''C1'', JObj [(''edgeSessionId'', JStr ''E1'')])],
          [Log Info ''Received connect webhook'',
           Invoke (Negotiate (JStr ''C1'') (JStr ''O1'')),
           Settle (Negotiate (JStr ''C1'') (JStr ''O1''))
             (Resolves (JObj [(''edge_session_id'', JStr ''E1''), (''sdp_answer'', JStr ''A1'')])),
           Invoke (PreAccept (JStr ''C1'') (JStr ''A1'')),
           Settle (PreAccept (JStr ''C1'') (JStr ''A1'')) (Resolves JNull),
           Invoke (Accept (JStr ''C1'')),
           Settle (Accept (JStr ''C1'')) (Resolves JNull),
           SendStatus 200],
          Done)"
    by (simp add: connect_flow_def connect_start_def Let_def)
  have "reachable [(JStr ''C1'', JObj [(''edgeSessionId'', JStr ''E1'')])] ([] @ [Done])"
    using connect_flow_reachable [OF reachable.init flow] .
  from terminate_without_call_id [OF this, of "JObj [(''reason'', JStr ''hangup'')]" Rejects "[]"
      "JObj []" "[Resolves JNull]" "[]"]
  show ?thesis by simp
qed

section \<open>Terminate without a session\<close>

text \<open>
  Claim C7. For a call id that has no registry entry, the terminate flow sends no
  hangup, sends the platform terminate, logs a warning if that request fails and
  answers 200 either way, leaving the registry as it was. The same holds for a second
  terminate of a call id after a first terminate flow that answered 200: the first
  one has removed the entry (or found none), so the second only notifies the platform.
\<close>

theorem terminate_without_session:
  assumes "\<not> nullish body"
  shows "(\<not> map_has activeCalls (jsprop body ''call_id'') \<longrightarrow>
           terminate_flow body (out # outs) activeCalls =
             (activeCalls,
              [Log Info ''Received terminate webhook'',
               Invoke (Terminate (jsprop body ''call_id'')),
               Settle (Terminate (jsprop body ''call_id'')) out]
              @ (case out of Rejects \<Rightarrow> [Log Warn ''Failed to call terminate''] | Resolves d \<Rightarrow> [])
              @ [SendStatus 200],
              Done))
       \<and> (terminate_flow body [out1, out2] activeCalls = (activeCalls', trace, Done)
            \<and> SendStatus 200 \<in> set trace \<longrightarrow>
           terminate_flow body (out # outs) activeCalls' =
             (activeCalls',
              [Log Info ''Received terminate webhook'',
               Invoke (Terminate (jsprop body ''call_id'')),
               Settle (Terminate (jsprop body ''call_id'')) out]
              @ (case out of Rejects \<Rightarrow> [Log Warn ''Failed to call terminate''] | Resolves d \<Rightarrow> [])
              @ [SendStatus 200],
              Done))"
proof -
  have notify: "terminate_flow body (out # outs) m =
             (m,
              [Log Info ''Received terminate webhook'',
               Invoke (Terminate (jsprop body ''call_id'')),
               Settle (Terminate (jsprop body ''call_id'')) out]
              @ (case out of Rejects \<Rightarrow> [Log Warn ''Failed to call terminate''] | Resolves d \<Rightarrow> [])
              @ [SendStatus 200],
              Done)"
    if "\<not> truthy (jsprop (map_get m (jsprop body ''call_id'')) ''edgeSessionId'')" for m
    using terminate_start_notify [OF assms that]
    by (cases out) (simp_all add: terminate_flow_def drive_Done)
  have first: ?thesis if "\<not> truthy (jsprop (map_get activeCalls (jsprop body ''call_id'')) ''edgeSessionId'')"
  proof -
    have "terminate_flow body [out1, out2] activeCalls = (activeCalls', trace, Done)
          \<Longrightarrow> activeCalls' = activeCalls"
      using that terminate_start_notify [OF assms that]
      by (cases out1) (simp_all add: terminate_flow_def)
    then show ?thesis using notify [OF that] that by auto
  qed
  have second: ?thesis if t: "truthy (jsprop (map_get activeCalls (jsprop body ''call_id'')) ''edgeSessionId'')"
  proof -
    have has: "map_has activeCalls (jsprop body ''call_id'')"
    proof (rule ccontr)
      assume "\<not> map_has activeCalls (jsprop body ''call_id'')"
      then have "map_get activeCalls (jsprop body ''call_id'') = JUndefined"
        by (rule map_get_not_has)
      with t show False by simp
    qed
    have "activeCalls' = map_delete activeCalls (jsprop body ''call_id'')"
      if "terminate_flow body [out1, out2] activeCalls = (activeCalls', trace, Done)"
        "SendStatus 200 \<in> set trace"
      using that terminate_start_hangup [OF assms t]
      by (cases out1; cases out2) (auto simp: terminate_flow_def terminate_catch_def)
    then show ?thesis using has notify [of "map_delete activeCalls (jsprop body ''call_id'')"]
      by (auto simp: map_get_delete)
  qed
  show ?thesis using first second by blast
qed

theorem terminate_without_session_witness:
  "terminate_flow (JObj [(''call_id'', JStr ''C9'')]) [Rejects]
     [(JStr ''C1'', JObj [(''edgeSessionId'', JStr ''E1'')])]
   = ([(JStr ''C1'', JObj [(''edgeSessionId'', JStr ''E1'')])],
      [Log Info ''Received terminate webhook'',
       Invoke (Terminate (JStr ''C9'')),
       Settle (Terminate (JStr ''C9'')) Rejects,
       Log Warn ''Failed to call terminate'', SendStatus 200],
      Done)
   \<and> terminate_flow (JObj [(''call_id'', JStr ''C1'')]) [Resolves JNull, Resolves JNull]
       [(JStr ''C1'', JObj [(''edgeSessionId'', JStr ''E1'')])]
     = ([],
        [Log Info ''Received terminate webhook'',
         Invoke (Hangup (JStr ''E1'')),
         Settle (Hangup (JStr ''E1'')) (Resolves JNull),
         Invoke (Terminate (JStr ''C1'')),
         Settle (Terminate (JStr ''C1'')) (Resolves JNull),
         SendStatus 200],
        Done)
   \<and> terminate_flow (JObj [(''call_id'', JStr ''C1'')]) [Resolves JNull] []
     = ([],
        [Log Info ''Received terminate webhook'',
         Invoke (Terminate (JStr ''C1'')),
         Settle (Terminate (JStr ''C1'')) (Resolves JNull),
         SendStatus 200],
        Done)"
proof -
  have first: "terminate_flow (JObj [(''call_id'', JStr ''C1'')]) [Resolves JNull, Resolves JNull]
       [(JStr ''C1'', JObj [(''edgeSessionId'', JStr ''E1'')])]
     = ([],
        [Log Info ''Received terminate webhook'',
         Invoke (Hangup (JStr ''E1'')),
         Settle (Hangup (JStr ''E1'')) (Resolves JNull),
         Invoke (Terminate (JStr ''C1'')),
         Settle (Terminate (JStr ''C1'')) (Resolves JNull),
         SendStatus 200],
        Done)"
    by (simp add: terminate_flow_def terminate_start_def Let_def same_value_zero_def)
  from terminate_without_session
      [of "JObj [(''call_id'', JStr ''C9'')]" "[(JStr ''C1'', JObj [(''edgeSessionId'', JStr ''E1'')])]"
        Rejects "[]"]
    terminate_without_session
      [of "JObj [(''call_id'', JStr ''C1'')]" "[(JStr ''C1'', JObj [(''edgeSessionId'', JStr ''E1'')])]"
        "Resolves JNull" "[]" "Resolves JNull" "Resolves JNull" "[]"
        "[Log Info ''Received terminate webhook'',
         Invoke (Hangup (JStr ''E1'')),
         Settle (Hangup (JStr ''E1'')) (Resolves JNull),
         Invoke (Terminate (JStr ''C1'')),
         Settle (Terminate (JStr ''C1'')) (Resolves JNull),
         SendStatus 200]"]
    first
  show ?thesis by (simp add: same_value_zero_def)
qed

section \<open>A connect event for a call that is already registered\<close>

text \<open>
  Claim C1 says that a connect event for a call id that is already in the registry is
  refused as a conflict, without a second negotiation and without overwriting the
  entry. The handler never looks the call id up before line 131. Scenario B of the
  specification, run on the code with C1 registered under edge session E1: negotiate
  is sent again, the entry of C1 is overwritten with the new edge session E2, and the
  answer is 200.
\<close>

theorem connect_registered_call_counterexample:
  "map_has [(JStr ''C1'', JObj [(''edgeSessionId'', JStr ''E1'')])] (JStr ''C1'')
   \<and> connect_flow
       (JObj [(''call_id'', JStr ''C1''), (''session'', JObj [(''sdp'', JStr ''O1'')])])
       [Resolves (JObj [(''edge_session_id'', JStr ''E2''), (''sdp_answer'', JStr ''A2'')]),
        Resolves JNull, Resolves JNull]
       [(JStr ''C1'', JObj [(''edgeSessionId'', JStr ''E1'')])]
     = ([(JStr ''C1'', JObj [(''edgeSessionId'', JStr ''E2'')])],
        [Log Info ''Received connect webhook'',
         Invoke (Negotiate (JStr ''C1'') (JStr ''O1'')),
         Settle (Negotiate (JStr ''C1'') (JStr ''O1''))
           (Resolves (JObj [(''edge_session_id'', JStr ''E2''), (''sdp_answer'', JStr ''A2'')])),
         Invoke (PreAccept (JStr ''C1'') (JStr ''A2'')),
         Settle (PreAccept (JStr ''C1'') (JStr ''A2'')) (Resolves JNull),
         Invoke (Accept (JStr ''C1'')),
         Settle (Accept (JStr ''C1'')) (Resolves JNull),
         SendStatus 200],
        Done)"
  by (simp add: connect_flow_def connect_start_def Let_def same_value_zero_def)

text \<open>
  Claim C1, as the code has it. In every reachable state of the server no call id has
  more than one registry entry. A connect event for a call id that is already
  registered is handled like any other: negotiate is sent, and when the edge answers
  with both fields the existing entry is overwritten in place with the new edge
  session (so there is still one entry for the call id) and pre-accept is sent.
\<close>

theorem connect_registered_call_renegotiates:
  assumes "reachable activeCalls hs"
  shows "entries_for activeCalls k \<le> 1
       \<and> (map_has activeCalls (jsprop body ''call_id'')
            \<and> truthy (jsprop (jsprop body ''session'') ''sdp'')
            \<and> truthy (jsprop data ''edge_session_id'') \<and> truthy (jsprop data ''sdp_answer'') \<longrightarrow>
           connect_flow body [] activeCalls =
             (activeCalls,
              [Log Info ''Received connect webhook'',
               Invoke (Negotiate (jsprop body ''call_id'') (jsprop (jsprop body ''session'') ''sdp''))],
              AwaitNegotiate (jsprop body ''call_id'') (jsprop (jsprop body ''session'') ''sdp''))
         \<and> connect_flow body [Resolves data] activeCalls =
             (map_set activeCalls (jsprop body ''call_id'')
                (JObj [(''edgeSessionId'', jsprop data ''edge_session_id'')]),
              [Log Info ''Received connect webhook'',
               Invoke (Negotiate (jsprop body ''call_id'') (jsprop (jsprop body ''session'') ''sdp'')),
               Settle (Negotiate (jsprop body ''call_id'') (jsprop (jsprop body ''session'') ''sdp''))
                 (Resolves data),
               Invoke (PreAccept (jsprop body ''call_id'') (jsprop data ''sdp_answer''))],
              AwaitPreAccept (jsprop body ''call_id'') (jsprop data ''sdp_answer''))
         \<and> map_get (map_set activeCalls (jsprop body ''call_id'')
                (JObj [(''edgeSessionId'', jsprop data ''edge_session_id'')])) (jsprop body ''call_id'')
             = JObj [(''edgeSessionId'', jsprop data ''edge_session_id'')]
         \<and> entries_for (map_set activeCalls (jsprop body ''call_id'')
                (JObj [(''edgeSessionId'', jsprop data ''edge_session_id'')])) k \<le> 1)"
proof -
  have inv: "\<forall>(k, v) \<in> set activeCalls. truthy k \<and> truthy (jsprop v ''edgeSessionId'')"
    "\<And>k. entries_for activeCalls k \<le> 1"
    using reachable_invariant [OF assms] by auto
  have "?thesis" if has: "map_has activeCalls (jsprop body ''call_id'')"
    and sdp: "truthy (jsprop (jsprop body ''session'') ''sdp'')"
    and e: "truthy (jsprop data ''edge_session_id'')" and a: "truthy (jsprop data ''sdp_answer'')"
  proof -
    have c: "truthy (jsprop body ''call_id'')"
      using has inv(1) falsy_key_not_stored [of activeCalls "jsprop body ''call_id''"] by blast
    have p: "primitive (jsprop body ''call_id'')" using has by (rule map_has_primitive)
    show ?thesis
      using inv(2) p entries_for_set_le [of activeCalls, OF inv(2)]
      by (simp add: connect_flow_def connect_start_valid [OF c sdp] resume_negotiate_valid [OF e a]
          map_get_set del: resume.simps(2))
  qed
  then show ?thesis using inv(2) by blast
qed

theorem connect_registered_call_renegotiates_witness:
  "entries_for [(JStr ''C1'', JObj [(''edgeSessionId'', JStr ''E1'')])] (JStr ''C1'') \<le> 1
   \<and> connect_flow
       (JObj [(''call_id'', JStr ''C1''), (''session'', JObj [(''sdp'', JStr ''O1'')])])
       [Resolves (JObj [(''edge_session_id'', JStr ''E2''), (''sdp_answer'', JStr ''A2'')])]
       [(JStr ''C1'', JObj [(''edgeSessionId'', JStr ''E1'')])]
     = ([(JStr ''C1'', JObj [(''edgeSessionId'', JStr ''E2'')])],
        [Log Info ''Received connect webhook'',
         Invoke (Negotiate (JStr ''C1'') (JStr ''O1'')),
         Settle (Negotiate (JStr ''C1'') (JStr ''O1''))
           (Resolves (JObj [(''edge_session_id'', JStr ''E2''), (''sdp_answer'', JStr ''A2'')])),
         Invoke (PreAccept (JStr ''C1'') (JStr ''A2''))],
        AwaitPreAccept (JStr ''C1'') (JStr ''A2''))
   \<and> entries_for [(JStr ''C1'', JObj [(''edgeSessionId'', JStr ''E2'')])] (JStr ''C1'') \<le> 1"
proof -
  have flow: "connect_flow
         (JObj [(''call_id'', JStr ''C1''), (''session'', JObj [(''sdp'', JStr ''O0'')])])
         [Resolves (JObj [(''edge_session_id'', JStr ''E1''), (''sdp_answer'', JStr ''A1'')])] []
       = ([(JStr ''C1'', JObj [(''edgeSessionId'', JStr ''E1'')])],
          [Log Info ''Received connect webhook'',
           Invoke (Negotiate (JStr ''C1'') (JStr ''O0'')),
           Settle (Negotiate (JStr ''C1'') (JStr ''O0''))
             (Resolves (JObj [(''edge_session_id'', JStr ''E1''), (''sdp_answer'', JStr ''A1'')])),
           Invoke (PreAccept (JStr ''C1'') (JStr ''A1''))],
          AwaitPreAccept (JStr ''C1'') (JStr ''A1''))"
    by (simp add: connect_flow_def connect_start_def Let_def)
  have "reachable [(JStr ''C1'', JObj [(''edgeSessionId'', JStr ''E1'')])]
          ([] @ [AwaitPreAccept (JStr ''C1'') (JStr ''A1'')])"
    using connect_flow_reachable [OF reachable.init flow] .
  from connect_registered_call_renegotiates [OF this, of "JStr ''C1''"
      "JObj [(''call_id'', JStr ''C1''), (''session'', JObj [(''sdp'', JStr ''O1'')])]"
      "JObj [(''edge_session_id'', JStr ''E2''), (''sdp_answer'', JStr ''A2'')]"]
  show ?thesis by (simp add: same_value_zero_def)
qed

section \<open>A connect flow that succeeds\<close>

text \<open>
  Claim C8 says that after a successful connect flow the session is in state Active.
  The registry maps a call id to \<^verbatim>\<open>{ edgeSessionId }\<close> and nothing else (lines 106 and
  140): no state is stored anywhere. Scenario A of the specification, run on the code:
  the flow answers 200 and the registry is exactly one entry, C1 with edge session E1,
  whose \<^verbatim>\<open>state\<close> is undefined.
\<close>

theorem connect_success_counterexample:
  "connect_flow
     (JObj [(''call_id'', JStr ''C1''), (''session'', JObj [(''sdp'', JStr ''O1'')])])
     [Resolves (JObj [(''edge_session_id'', JStr ''E1''), (''sdp_answer'', JStr ''A1'')]),
      Resolves JNull, Resolves JNull] []
   = ([(JStr ''C1'', JObj [(''edgeSessionId'', JStr ''E1'')])],
      [Log Info ''Received connect webhook'',
       Invoke (Negotiate (JStr ''C1'') (JStr ''O1'')),
       Settle (Negotiate (JStr ''C1'') (JStr ''O1''))
         (Resolves (JObj [(''edge_session_id'', JStr ''E1''), (''sdp_answer'', JStr ''A1'')])),
       Invoke (PreAccept (JStr ''C1'') (JStr ''A1'')),
       Settle (PreAccept (JStr ''C1'') (JStr ''A1'')) (Resolves JNull),
       Invoke (Accept (JStr ''C1'')),
       Settle (Accept (JStr ''C1'')) (Resolves JNull),
       SendStatus 200],
      Done)
   \<and> jsprop (map_get [(JStr ''C1'', JObj [(''edgeSessionId'', JStr ''E1'')])] (JStr ''C1'')) ''state''
       \<noteq> JStr ''Active''"
  by (simp add: connect_flow_def connect_start_def Let_def same_value_zero_def)

text \<open>
  Claim C8, as the code has it: when negotiate returns an edge session id and an
  answer, and pre-accept and accept both succeed, the flow answers 200; afterwards
  the registry has exactly one entry for the call id, and that entry is the object
  \<^verbatim>\<open>{ edgeSessionId }\<close> with the id returned by the edge and no state field. The call
  id is a string or another primitive, and the flow starts in any reachable state.
\<close>

theorem connect_success_registers_session:
  assumes "reachable activeCalls hs"
    and "truthy (jsprop body ''call_id'')" and "primitive (jsprop body ''call_id'')"
    and "truthy (jsprop (jsprop body ''session'') ''sdp'')"
    and "truthy (jsprop data ''edge_session_id'')" and "truthy (jsprop data ''sdp_answer'')"
  shows "connect_flow body (Resolves data # Resolves data1 # Resolves data2 # outs) activeCalls =
           (map_set activeCalls (jsprop body ''call_id'')
              (JObj [(''edgeSessionId'', jsprop data ''edge_session_id'')]),
            [Log Info ''Received connect webhook'',
             Invoke (Negotiate (jsprop body ''call_id'') (jsprop (jsprop body ''session'') ''sdp'')),
             Settle (Negotiate (jsprop body ''call_id'') (jsprop (jsprop body ''session'') ''sdp''))
               (Resolves data),
             Invoke (PreAccept (jsprop body ''call_id'') (jsprop data ''sdp_answer'')),
             Settle (PreAccept (jsprop body ''call_id'') (jsprop data ''sdp_answer'')) (Resolves data1),
             Invoke (Accept (jsprop body ''call_id'')),
             Settle (Accept (jsprop body ''call_id'')) (Resolves data2),
             SendStatus 200],
            Done)
       \<and> entries_for (map_set activeCalls (jsprop body ''call_id'')
              (JObj [(''edgeSessionId'', jsprop data ''edge_session_id'')])) (jsprop body ''call_id'') = 1
       \<and> map_get (map_set activeCalls (jsprop body ''call_id'')
              (JObj [(''edgeSessionId'', jsprop data ''edge_session_id'')])) (jsprop body ''call_id'')
           = JObj [(''edgeSessionId'', jsprop data ''edge_session_id'')]"
proof -
  have "entries_for activeCalls (jsprop body ''call_id'') \<le> 1"
    using reachable_invariant [OF assms(1)] by auto
  then show ?thesis
    using assms(3)
    by (simp add: connect_flow_def connect_start_valid [OF assms(2,4)]
        resume_negotiate_valid [OF assms(5,6)] drive_Done map_get_set entries_for_after_set
        del: resume.simps(2))
qed

theorem connect_success_registers_session_witness:
  "connect_flow
     (JObj [(''call_id'', JStr ''C1''), (''session'', JObj [(''sdp'', JStr ''O1'')])])
     [Resolves (JObj [(''edge_session_id'', JStr ''E1''), (''sdp_answer'', JStr ''A1'')]),
      Resolves JNull, Resolves JNull] []
   = ([(JStr ''C1'', JObj [(''edgeSessionId'', JStr ''E1'')])],
      [Log Info ''Received connect webhook'',
       Invoke (Negotiate (JStr ''C1'') (JStr ''O1'')),
       Settle (Negotiate (JStr ''C1'') (JStr ''O1''))
         (Resolves (JObj [(''edge_session_id'', JStr ''E1''), (''sdp_answer'', JStr ''A1'')])),
       Invoke (PreAccept (JStr ''C1'') (JStr ''A1'')),
       Settle (PreAccept (JStr ''C1'') (JStr ''A1'')) (Resolves JNull),
       Invoke (Accept (JStr ''C1'')),
       Settle (Accept (JStr ''C1'')) (Resolves JNull),
       SendStatus 200],
      Done)
   \<and> entries_for [(JStr ''C1'', JObj [(''edgeSessionId'', JStr ''E1'')])] (JStr ''C1'') = 1
   \<and> map_get [(JStr ''C1'', JObj [(''edgeSessionId'', JStr ''E1'')])] (JStr ''C1'')
       = JObj [(''edgeSessionId'', JStr ''E1'')]"
  using connect_success_registers_session [OF reachable.init,
      of "JObj [(''call_id'', JStr ''C1''), (''session'', JObj [(''sdp'', JStr ''O1'')])]"
        "JObj [(''edge_session_id'', JStr ''E1''), (''sdp_answer'', JStr ''A1'')]"
        JNull JNull "[]"]
  by simp

section \<open>The order of the remote calls of a connect flow\<close>

text \<open>
  Claim C4. In the trace of a connect flow, complete or still suspended, whatever the
  body, the outcomes and the registry: wherever pre-accept is sent for a call, the
  negotiate of that call has settled before it, successfully and with both fields,
  and the answer sent is the one it returned; wherever accept is sent for a call, the
  pre-accept of that call has settled successfully before it.
\<close>

theorem connect_calls_sequenced:
  assumes "connect_flow body outs activeCalls = (activeCalls', trace, s)"
  shows "(trace = pre @ Invoke (PreAccept c a) # post \<longrightarrow>
           (\<exists>sdpOffer data. Settle (Negotiate c sdpOffer) (Resolves data) \<in> set pre
              \<and> truthy (jsprop data ''edge_session_id'') \<and> truthy (jsprop data ''sdp_answer'')
              \<and> a = jsprop data ''sdp_answer''))
       \<and> (trace = pre @ Invoke (Accept c) # post \<longrightarrow>
           (\<exists>a data. Settle (PreAccept c a) (Resolves data) \<in> set pre))"
proof -
  obtain m0 tr0 s0 where st: "connect_start body activeCalls = (m0, tr0, s0)"
    by (cases "connect_start body activeCalls") auto
  have "sequenced tr0" using connect_start_sequenced [of body activeCalls] st by simp
  then have "sequenced (fst (snd (drive outs (m0, tr0, s0))))"
    using drive_trace [of sequenced, OF sequenced_resume] by blast
  then have "sequenced trace" using assms st by (simp add: connect_flow_def)
  then show ?thesis unfolding sequenced_def by blast
qed

theorem connect_calls_sequenced_witness:
  "(\<exists>sdpOffer data.
      Settle (Negotiate (JStr ''C1'') sdpOffer) (Resolves data)
        \<in> set [Log Info ''Received connect webhook'',
                Invoke (Negotiate (JStr ''C1'') (JStr ''O1'')),
                Settle (Negotiate (JStr ''C1'') (JStr ''O1''))
                  (Resolves (JObj [(''edge_session_id'', JStr ''E1''), (''sdp_answer'', JStr ''A1'')]))]
      \<and> truthy (jsprop data ''edge_session_id'') \<and> truthy (jsprop data ''sdp_answer'')
      \<and> JStr ''A1'' = jsprop data ''sdp_answer'')
   \<and> (\<exists>a data.
      Settle (PreAccept (JStr ''C1'') a) (Resolves data)
        \<in> set [Log Info ''Received connect webhook'',
                Invoke (Negotiate (JStr ''C1'') (JStr ''O1'')),
                Settle (Negotiate (JStr ''C1'') (JStr ''O1''))
                  (Resolves (JObj [(''edge_session_id'', JStr ''E1''), (''sdp_answer'', JStr ''A1'')])),
                Invoke (PreAccept (JStr ''C1'') (JStr ''A1'')),
                Settle (PreAccept (JStr ''C1'') (JStr ''A1'')) (Resolves JNull)])"
proof -
  have flow: "connect_flow
     (JObj [(''call_id'', JStr ''C1''), (''session'', JObj [(''sdp'', JStr ''O1'')])])
     [Resolves (JObj [(''edge_session_id'', JStr ''E1''), (''sdp_answer'', JStr ''A1'')]),
      Resolves JNull, Resolves JNull] []
   = ([(JStr ''C1'', JObj [(''edgeSessionId'', JStr ''E1'')])],
      [Log Info ''Received connect webhook'',
       Invoke (Negotiate (JStr ''C1'') (JStr ''O1'')),
       Settle (Negotiate (JStr ''C1'') (JStr ''O1''))
         (Resolves (JObj [(''edge_session_id'', JStr ''E1''), (''sdp_answer'', JStr ''A1'')]))]
      @ Invoke (PreAccept (JStr ''C1'') (JStr ''A1''))
      # Settle (PreAccept (JStr ''C1'') (JStr ''A1'')) (Resolves JNull)
      # Invoke (Accept (JStr ''C1''))
      # [Settle (Accept (JStr ''C1'')) (Resolves JNull), SendStatus 200],
      Done)"
    by (simp add: connect_flow_def connect_start_def Let_def)
  from connect_calls_sequenced [OF flow,
      of "[Log Info ''Received connect webhook'',
           Invoke (Negotiate (JStr ''C1'') (JStr ''O1'')),
           Settle (Negotiate (JStr ''C1'') (JStr ''O1''))
             (Resolves (JObj [(''edge_session_id'', JStr ''E1''), (''sdp_answer'', JStr ''A1'')]))]"
         "JStr ''C1''" "JStr ''A1''"
         "[Settle (PreAccept (JStr ''C1'') (JStr ''A1'')) (Resolves JNull),
           Invoke (Accept (JStr ''C1'')),
           Settle (Accept (JStr ''C1'')) (Resolves JNull), SendStatus 200]"]
  have first: "\<exists>sdpOffer data.
      Settle (Negotiate (JStr ''C1'') sdpOffer) (Resolves data)
        \<in> set [Log Info ''Received connect webhook'',
                Invoke (Negotiate (JStr ''C1'') (JStr ''O1'')),
                Settle (Negotiate (JStr ''C1'') (JStr ''O1''))
                  (Resolves (JObj [(''edge_session_id'', JStr ''E1''), (''sdp_answer'', JStr ''A1'')]))]
      \<and> truthy (jsprop data ''edge_session_id'') \<and> truthy (jsprop data ''sdp_answer'')
      \<and> JStr ''A1'' = jsprop data ''sdp_answer''"
    by simp
  from connect_calls_sequenced [OF flow,
      of "[Log Info ''Received connect webhook'',
           Invoke (Negotiate (JStr ''C1'') (JStr ''O1'')),
           Settle (Negotiate (JStr ''C1'') (JStr ''O1''))
             (Resolves (JObj [(''edge_session_id'', JStr ''E1''), (''sdp_answer'', JStr ''A1'')])),
           Invoke (PreAccept (JStr ''C1'') (JStr ''A1'')),
           Settle (PreAccept (JStr ''C1'') (JStr ''A1'')) (Resolves JNull)]"
         "JStr ''C1''" "JStr ''A9''"
         "[Settle (Accept (JStr ''C1'')) (Resolves JNull), SendStatus 200]"]
  have second: "\<exists>a data.
      Settle (PreAccept (JStr ''C1'') a) (Resolves data)
        \<in> set [Log Info ''Received connect webhook'',
                Invoke (Negotiate (JStr ''C1'') (JStr ''O1'')),
                Settle (Negotiate (JStr ''C1'') (JStr ''O1''))
                  (Resolves (JObj [(''edge_session_id'', JStr ''E1''), (''sdp_answer'', JStr ''A1'')])),
                Invoke (PreAccept (JStr ''C1'') (JStr ''A1'')),
                Settle (PreAccept (JStr ''C1'') (JStr ''A1'')) (Resolves JNull)]"
    by simp
  from first second show ?thesis by (rule conjI)
qed

end
